theory Spec2Isabelle
  imports Complex_Main "HOL-Library.Sublist"
begin

section \<open>Python strings\<close>

text \<open>
  A Python \<open>str\<close> is modelled as a \<open>string\<close> whose characters are read as the code
  points below 128. On that range \<open>str.lower\<close> only moves \<open>A..Z\<close>, the whitespace of
  \<open>str.strip\<close> and of the regular expression class \<open>\s\<close> is the code points 9 to 13 and
  28 to 32, the class \<open>\w\<close> is the letters, the digits and the underscore, NFKD
  decomposition changes nothing and no character is a combining mark.
\<close>

definition isspace :: "char \<Rightarrow> bool" where
  "isspace c = (let n = (of_char c :: nat) in (9 \<le> n \<and> n \<le> 13) \<or> (28 \<le> n \<and> n \<le> 32))"

definition isword :: "char \<Rightarrow> bool" where
  "isword c = (let n = (of_char c :: nat) in
     (48 \<le> n \<and> n \<le> 57) \<or> (65 \<le> n \<and> n \<le> 90) \<or> n = 95 \<or> (97 \<le> n \<and> n \<le> 122))"

definition lower_char :: "char \<Rightarrow> char" where
  "lower_char c = (let n = (of_char c :: nat) in
     if 65 \<le> n \<and> n \<le> 90 then char_of (n + 32) else c)"

definition lower :: "string \<Rightarrow> string" where
  "lower s = map lower_char s"

definition lstrip :: "string \<Rightarrow> string" where
  "lstrip s = dropWhile isspace s"

definition rstrip :: "string \<Rightarrow> string" where
  "rstrip s = rev (dropWhile isspace (rev s))"

definition strip :: "string \<Rightarrow> string" where
  "strip s = rstrip (lstrip s)"

text \<open>\<open>k in text\<close> on two strings: \<open>k\<close> starts at some position of \<open>text\<close>.\<close>

fun str_in :: "string \<Rightarrow> string \<Rightarrow> bool" where
  "str_in k [] = (k = [])"
| "str_in k (c # cs) = (prefix k (c # cs) \<or> str_in k cs)"

text \<open>\<open>any(k in text for k in kws)\<close>.\<close>

definition any_in :: "string list \<Rightarrow> string \<Rightarrow> bool" where
  "any_in kws text = list_ex (\<lambda>k. str_in k text) kws"

text \<open>\<open>s.rsplit("/", 1)[-1]\<close>: what follows the last slash, the whole string without one.\<close>

definition rsplit_last :: "string \<Rightarrow> string" where
  "rsplit_last s = rev (takeWhile (\<lambda>c. c \<noteq> CHR ''/'') (rev s))"

section \<open>src/utils/text.py\<close>

definition nfkd :: "string \<Rightarrow> string" where
  "nfkd s = s"

definition combining :: "char \<Rightarrow> bool" where
  "combining c = False"

text \<open>\<open>re.sub(r"\s+", " ", s)\<close>: every maximal run of whitespace becomes one space.\<close>

function collapse_ws :: "string \<Rightarrow> string" where
  "collapse_ws [] = []"
| "collapse_ws (c # cs) =
     (if isspace c then CHR '' '' # collapse_ws (dropWhile isspace cs)
      else c # collapse_ws cs)"
  by pat_completeness auto
termination
  by (relation "measure length") (auto simp: length_dropWhile_le less_Suc_eq_le)

text \<open>The characters \<open>re.sub(r"[^\w\s&.-]", "", s)\<close> leaves in place.\<close>

definition keep_char :: "char \<Rightarrow> bool" where
  "keep_char c = (isword c \<or> isspace c \<or> c = CHR ''&'' \<or> c = CHR ''.'' \<or> c = CHR ''-'')"

definition normalize_name :: "string \<Rightarrow> string" where
  "normalize_name s =
     (let s1 = lower (strip s);
          s2 = nfkd s1;
          s3 = filter (\<lambda>ch. \<not> combining ch) s2;
          s4 = collapse_ws s3;
          s5 = filter keep_char s4
      in strip s5)"

text \<open>
  Modelled from the spec: \<open>src/sources/wikidata.py\<close> and
  \<open>scripts/run_ggc_llm_seeds.py\<close> import \<open>normalize_for_match\<close> from
  \<open>src/utils/text.py\<close>, which does not define it. The spec has one Text Normalizer
  (section 4.1), whose algorithm is the one of \<open>normalize_name\<close>.
\<close>

definition normalize_for_match :: "string \<Rightarrow> string" where
  "normalize_for_match s = normalize_name s"

text \<open>
  A row is a Python dict from field names to strings or \<open>None\<close>: an association list
  read with \<open>map_of\<close>, the value \<open>None\<close> of HOL standing for Python's \<open>None\<close>.
  \<open>r.get(f)\<close> is \<open>map_of r f\<close>.
\<close>

type_synonym row = "(string \<times> string option) list"

text \<open>\<open>(x or "")\<close> for \<open>x = r.get(f)\<close>.\<close>

fun or_empty :: "string option option \<Rightarrow> string" where
  "or_empty None = []"
| "or_empty (Some None) = []"
| "or_empty (Some (Some s)) = s"





section \<open>src/pipeline/filter.py\<close>

text \<open>
  The \<open>if\<close>/\<open>elif\<close> chain of \<open>filter_relevant\<close> that computes \<open>keep\<close> from
  \<open>r.get("category")\<close> and the text.
\<close>

definition is_relevant :: "string option option \<Rightarrow> string \<Rightarrow> bool" where
  "is_relevant category text =
     (if category = Some (Some ''TSO'') then
        any_in [''transmission'', ''system operator'', ''grid operator'', lower ''tsO''] text
      else if category = Some (Some ''Regulator'') then
        any_in [''regulator'', ''regulatory'', ''commission'', ''authority''] text
      else if category = Some (Some ''Ministry'') then
        any_in [''ministry'', ''department''] text
      else True)"

definition label_text :: "row \<Rightarrow> string" where
  "label_text r =
     lower (or_empty (map_of r ''operator_label'')) @ '' ''
       @ lower (or_empty (map_of r ''description_en''))"

fun filter_relevant :: "row list \<Rightarrow> row list" where
  "filter_relevant [] = []"
| "filter_relevant (r # rows) =
     (let lbl = lower (or_empty (map_of r ''operator_label''));
          desc = lower (or_empty (map_of r ''description_en''))
      in if lbl = [] then filter_relevant rows
         else let text = lbl @ '' '' @ desc;
                  keep = is_relevant (map_of r ''category'') text
              in if keep then r # filter_relevant rows else filter_relevant rows)"

section \<open>src/sources/wikidata.py\<close>

datatype error =
    JSONDecodeError
  | AttributeError string string
  | ValueError string
  | TypeError string
  | RequestException string

text \<open>
  One binding of a SPARQL JSON result is a dict from variable names to dicts with a
  \<open>"value"\<close> entry. The query text is determined by the country, the type identifiers
  and the limit put into it. The endpoint is any function from the number of requests
  made so far and the query to the outcome of \<open>requests.get\<close>, \<open>raise_for_status\<close> and
  \<open>r.json()\<close> together: an exception, or the bindings of the response.
  The state of the network side is the number of requests made and the list of the
  pauses slept.
\<close>

type_synonym binding = "(string \<times> (string \<times> string) list) list"

record sparql_query =
  q_country :: string
  q_types :: "string list"
  q_limit :: int

type_synonym endpoint = "nat \<Rightarrow> sparql_query \<Rightarrow> error + binding list"

record net =
  requests_made :: nat
  slept :: "real list"

fun v_of :: "(string \<times> string) list option \<Rightarrow> string option" where
  "v_of None = None"
| "v_of (Some val) = (if val = [] then None else map_of val ''value'')"

text \<open>
  The loop of \<open>_sparql\<close> over \<open>range(1, retries + 1)\<close>. The result \<open>Inl last_err\<close> is
  the loop running out.
\<close>

fun sparql_attempts ::
  "endpoint \<Rightarrow> sparql_query \<Rightarrow> real \<Rightarrow> error option \<Rightarrow> nat list \<Rightarrow> net
     \<Rightarrow> (error option + binding list) \<times> net" where
  "sparql_attempts srv query backoff_s last_err [] w = (Inl last_err, w)"
| "sparql_attempts srv query backoff_s last_err (attempt # rest) w =
     (case srv (requests_made w) query of
        Inr json \<Rightarrow> (Inr json, w\<lparr>requests_made := Suc (requests_made w)\<rparr>)
      | Inl e \<Rightarrow>
          (let wait = backoff_s * real attempt in
           sparql_attempts srv query backoff_s (Some e) rest
             (w\<lparr>requests_made := Suc (requests_made w), slept := slept w @ [wait]\<rparr>)))"

text \<open>\<open>raise last_err\<close> with \<open>last_err = None\<close> is a \<open>TypeError\<close>.\<close>

definition sparql ::
  "endpoint \<Rightarrow> sparql_query \<Rightarrow> nat \<Rightarrow> real \<Rightarrow> net \<Rightarrow> (error + binding list) \<times> net" where
  "sparql srv query retries backoff_s w =
     (case sparql_attempts srv query backoff_s None [1..<retries + 1] w of
        (Inr json, w') \<Rightarrow> (Inr json, w')
      | (Inl (Some e), w') \<Rightarrow> (Inl e, w')
      | (Inl None, w') \<Rightarrow> (Inl (TypeError ''exceptions must derive from BaseException''), w'))"

definition category_types :: "string \<Rightarrow> error + (string list \<times> string list \<times> string list)" where
  "category_types category =
     (if category = ''TSO'' then
        Inr ([''Q112046''], [''Q1326624''],
             [''transmission'', ''grid'', ''system operator'', ''operator'', ''electricidad'',
              ''energia''])
      else if category = ''Regulator'' then
        Inr ([''Q1639780''], [],
             [''energy'', ''electricity'', ''power'', ''grid'', ''renewable'', ''renewables'',
              ''electricidad'', ''energia''])
      else if category = ''Ministry'' then
        Inr ([''Q19973795''], [''Q1805337''], [''energy'', ''electricity'', ''power''])
      else Inl (ValueError (''Unknown category: '' @ category)))"

text \<open>\<open>list(dict.fromkeys(xs))\<close>: the first occurrence of each element, in order.\<close>

fun fromkeys :: "'a list \<Rightarrow> 'a list" where
  "fromkeys [] = []"
| "fromkeys (x # xs) = x # removeAll x (fromkeys xs)"

text \<open>\<open>c.rsplit("/", 1)[-1] if c else None\<close>.\<close>

fun last_segment :: "string option \<Rightarrow> string option" where
  "last_segment None = None"
| "last_segment (Some c) = (if c = [] then None else Some (rsplit_last c))"

text \<open>The loop of \<open>run\<close> over \<open>data["results"]["bindings"]\<close>.\<close>

fun binding_rows :: "string \<Rightarrow> binding list \<Rightarrow> row list" where
  "binding_rows category [] = []"
| "binding_rows category (b # bs) =
     (case v_of (map_of b ''item'') of
        None \<Rightarrow> binding_rows category bs
      | Some item \<Rightarrow>
          if item = [] then binding_rows category bs
          else
            (let qid = rsplit_last item;
                 country_q = last_segment (v_of (map_of b ''country''));
                 type_q = last_segment (v_of (map_of b ''type''))
             in [(''source'', Some ''wikidata''),
                 (''category'', Some category),
                 (''operator_qid'', Some qid),
                 (''operator_label'', v_of (map_of b ''itemLabel'')),
                 (''operator_type_qid'', type_q),
                 (''operator_type_label'', v_of (map_of b ''typeLabel'')),
                 (''country_qid'', country_q),
                 (''country_label'', v_of (map_of b ''countryLabel'')),
                 (''website'', v_of (map_of b ''website'')),
                 (''description_en'', v_of (map_of b ''desc''))]
                # binding_rows category bs))"

definition run ::
  "endpoint \<Rightarrow> string \<Rightarrow> string \<Rightarrow> real \<Rightarrow> int \<Rightarrow> string list \<Rightarrow> net
     \<Rightarrow> (error + row list) \<times> net" where
  "run srv country_qid category sleep_s limit types w =
     (case sparql srv \<lparr>q_country = country_qid, q_types = types, q_limit = limit\<rparr> 3 2 w of
        (Inl e, w') \<Rightarrow> (Inl e, w')
      | (Inr json, w') \<Rightarrow> (Inr (binding_rows category json), w'\<lparr>slept := slept w' @ [sleep_s]\<rparr>))"

text \<open>The keyword loop of \<open>fetch_candidates_for_country\<close> over the rows of \<open>run\<close>.\<close>

fun keyword_filter :: "string list \<Rightarrow> row list \<Rightarrow> row list" where
  "keyword_filter kw [] = []"
| "keyword_filter kw (r # rows) =
     (let lbl = lower (or_empty (map_of r ''operator_label''));
          desc = lower (or_empty (map_of r ''description_en''));
          text = normalize_for_match (lbl @ '' '' @ desc);
          kw_norm = map normalize_for_match kw
      in if any_in kw_norm text then r # keyword_filter kw rows
         else keyword_filter kw rows)"

definition fetch_candidates_for_country ::
  "endpoint \<Rightarrow> string \<Rightarrow> string \<Rightarrow> real \<Rightarrow> int \<Rightarrow> net \<Rightarrow> (error + row list) \<times> net" where
  "fetch_candidates_for_country srv country_qid category sleep_s limit w =
     (case category_types category of
        Inl e \<Rightarrow> (Inl e, w)
      | Inr (strict_types, fallback_types, kw) \<Rightarrow>
          (let types = fromkeys (strict_types @ fallback_types) in
           case run srv country_qid category sleep_s limit types w of
             (Inl e, w') \<Rightarrow> (Inl e, w')
           | (Inr rows, w') \<Rightarrow> (Inr (keyword_filter kw rows), w')))"

section \<open>scripts/run_ggc_llm_seeds.py\<close>

definition CATEGORIES :: "(string \<times> string) list" where
  "CATEGORIES =
     [(''TSO'', ''transmission system operator (TSO) / national grid or system operator''),
      (''Regulator'',
       ''electricity/energy regulator with formal regulatory authority (tariffs, licensing, compliance, grid access)''),
      (''Ministry'', ''cabinet-level ministry responsible for energy/electricity policy''),
      (''RenewablesAgency'',
       ''national renewable energy agency (promotion/implementation body, incentives, programs, certification)''),
      (''NuclearAgency'',
       ''national nuclear/atomic agency or nuclear safety regulator (nuclear governance, safety, licensing, atomic energy commission)'')]"

record SeedRow =
  country_label :: string
  category :: string
  name :: string
  also_known_as :: string
  official_website :: string
  confidence :: string
  evidence :: string
  comment :: string
  source :: string

text \<open>
  What \<open>json.loads\<close> returns. A float is a real number here: \<open>NaN\<close> and the infinities,
  which \<open>json.loads\<close> also accepts, are left out. An object is the association list of
  its dict.
\<close>

datatype json =
    JNull
  | JBool bool
  | JInt int
  | JFloat real
  | JStr string
  | JArr "json list"
  | JObj "(string \<times> json) list"

text \<open>Python's truth value of a decoded value, and the name of its type.\<close>

fun truthy :: "json \<Rightarrow> bool" where
  "truthy JNull = False"
| "truthy (JBool b) = b"
| "truthy (JInt i) = (i \<noteq> 0)"
| "truthy (JFloat x) = (x \<noteq> 0)"
| "truthy (JStr s) = (s \<noteq> [])"
| "truthy (JArr xs) = (xs \<noteq> [])"
| "truthy (JObj kvs) = (kvs \<noteq> [])"

fun type_name :: "json \<Rightarrow> string" where
  "type_name JNull = ''NoneType''"
| "type_name (JBool b) = ''bool''"
| "type_name (JInt i) = ''int''"
| "type_name (JFloat x) = ''float''"
| "type_name (JStr s) = ''str''"
| "type_name (JArr xs) = ''list''"
| "type_name (JObj kvs) = ''dict''"

text \<open>
  The dict \<open>_safe_parse_items\<close> builds for an item has exactly six string entries: a
  record of six strings.
\<close>

record item =
  name :: string
  also_known_as :: string
  official_website :: string
  confidence :: string
  evidence :: string
  comment :: string

text \<open>
  \<open>(it.get(f) or "").strip()\<close>: a value that is true and not a string has no \<open>strip\<close>.
\<close>

definition field_strip :: "(string \<times> json) list \<Rightarrow> string \<Rightarrow> error + string" where
  "field_strip it f =
     (case map_of it f of
        None \<Rightarrow> Inr (strip [])
      | Some x \<Rightarrow>
          if truthy x then
            (case x of
               JStr s \<Rightarrow> Inr (strip s)
             | _ \<Rightarrow> Inl (AttributeError (type_name x) ''strip''))
          else Inr (strip []))"

definition and_then :: "error + 'a \<Rightarrow> ('a \<Rightarrow> error + 'b) \<Rightarrow> error + 'b" where
  "and_then x f = (case x of Inl e \<Rightarrow> Inl e | Inr a \<Rightarrow> f a)"

text \<open>
  The body of the loop of \<open>_safe_parse_items\<close> for an item that is a dict: \<open>None\<close> is
  \<open>continue\<close>, \<open>Some\<close> is the dict appended to \<open>out\<close>.
\<close>

definition parse_item :: "(string \<times> json) list \<Rightarrow> error + item option" where
  "parse_item it =
     and_then (field_strip it ''name'') (\<lambda>name.
     and_then (field_strip it ''also_known_as'') (\<lambda>also_known_as.
     and_then (field_strip it ''official_website'') (\<lambda>official_website.
     and_then (field_strip it ''confidence'') (\<lambda>confidence.
     and_then (field_strip it ''evidence'') (\<lambda>evidence.
     and_then (field_strip it ''comment'') (\<lambda>comment.
       if name = [] then Inr None
       else
         (let confidence =
                (if confidence \<notin> {''HIGH'', ''MED'', ''LOW''} then ''LOW'' else confidence)
          in Inr (Some \<lparr>item.name = name,
                         item.also_known_as = also_known_as,
                         item.official_website = official_website,
                         item.confidence = confidence,
                         item.evidence = evidence,
                         item.comment = comment\<rparr>))))))))"

fun parse_loop :: "json list \<Rightarrow> item list \<Rightarrow> error + item list" where
  "parse_loop [] out = Inr out"
| "parse_loop (JObj it # items) out =
     (case parse_item it of
        Inl e \<Rightarrow> Inl e
      | Inr None \<Rightarrow> parse_loop items out
      | Inr (Some d) \<Rightarrow> parse_loop items (out @ [d]))"
| "parse_loop (x # items) out = parse_loop items out"

text \<open>
  The argument is the outcome of \<open>json.loads(resp_output_text)\<close>: the exception it
  raised or the value it returned. Only \<open>JSONDecodeError\<close> is caught.
\<close>

definition safe_parse_items :: "error + json \<Rightarrow> error + item list" where
  "safe_parse_items loaded =
     (case loaded of
        Inl e \<Rightarrow> (if e = JSONDecodeError then Inr [] else Inl e)
      | Inr obj \<Rightarrow>
          (case obj of
             JObj d \<Rightarrow>
               (let items = (case map_of d ''items'' of None \<Rightarrow> JArr [] | Some x \<Rightarrow> x) in
                case items of
                  JArr xs \<Rightarrow> parse_loop xs []
                | _ \<Rightarrow> Inr [])
           | _ \<Rightarrow> Inl (AttributeError (type_name obj) ''get'')))"

text \<open>
  The language model is any function from the number of calls made so far and the
  request to the decoded \<open>output_text\<close> of the response. A request is the data put into
  its prompt and schema. The state of a run is the number of calls made, the pauses
  slept, and the \<open>rows\<close> and \<open>seen_keys\<close> of \<open>main\<close>.
\<close>

datatype request =
    Primary string string string int
  | Verify string string string string

type_synonym llm = "nat \<Rightarrow> request \<Rightarrow> error + json"

record seeding =
  llm_calls :: nat
  naps :: "real list"
  rows :: "SeedRow list"
  seen_keys :: "string set"

record args =
  max_items :: int
  sleep :: real
  verify :: bool
  dedupe_against_manual :: bool

definition call_chatgpt ::
  "llm \<Rightarrow> string \<Rightarrow> string \<Rightarrow> string \<Rightarrow> int \<Rightarrow> seeding \<Rightarrow> error + (item list \<times> seeding)" where
  "call_chatgpt client country category_key category_desc n st =
     (case safe_parse_items
             (client (llm_calls st) (Primary country category_key category_desc n)) of
        Inl e \<Rightarrow> Inl e
      | Inr items \<Rightarrow> Inr (items, st\<lparr>llm_calls := Suc (llm_calls st)\<rparr>))"

definition verify_item ::
  "llm \<Rightarrow> string \<Rightarrow> string \<Rightarrow> string \<Rightarrow> string \<Rightarrow> seeding
     \<Rightarrow> error + (item option \<times> seeding)" where
  "verify_item client country category_key category_desc candidate_name st =
     (case safe_parse_items
             (client (llm_calls st) (Verify country category_key category_desc candidate_name)) of
        Inl e \<Rightarrow> Inl e
      | Inr items \<Rightarrow>
          Inr (case items of [] \<Rightarrow> None | d # _ \<Rightarrow> Some d, st\<lparr>llm_calls := Suc (llm_calls st)\<rparr>))"

text \<open>The verification loop of \<open>main\<close> over \<open>items\<close>, building \<open>verified\<close>.\<close>

fun verify_loop ::
  "llm \<Rightarrow> args \<Rightarrow> string \<Rightarrow> string \<Rightarrow> string \<Rightarrow> item list \<Rightarrow> item list \<Rightarrow> seeding
     \<Rightarrow> error + (item list \<times> seeding)" where
  "verify_loop client a country cat_key cat_desc [] verified st = Inr (verified, st)"
| "verify_loop client a country cat_key cat_desc (it # items) verified st =
     (case verify_item client country cat_key cat_desc (item.name it) st of
        Inl e \<Rightarrow> Inl e
      | Inr (v, st') \<Rightarrow>
          verify_loop client a country cat_key cat_desc items
            (verified @ [case v of Some d \<Rightarrow> d | None \<Rightarrow> it])
            (st'\<lparr>naps := naps st' @ [sleep a]\<rparr>))"

text \<open>The loop of \<open>main\<close> that appends a \<open>SeedRow\<close> for each new key.\<close>

fun emit_loop :: "args \<Rightarrow> string set \<Rightarrow> string \<Rightarrow> string \<Rightarrow> item list \<Rightarrow> seeding \<Rightarrow> seeding" where
  "emit_loop a manual_keys country cat_key [] st = st"
| "emit_loop a manual_keys country cat_key (it # items) st =
     (let k = normalize_for_match (item.name it) in
      if k = [] then emit_loop a manual_keys country cat_key items st
      else if k \<in> seen_keys st then emit_loop a manual_keys country cat_key items st
      else if dedupe_against_manual a \<and> k \<in> manual_keys then
        emit_loop a manual_keys country cat_key items st
      else
        emit_loop a manual_keys country cat_key items
          (st\<lparr>seen_keys := insert k (seen_keys st),
              rows := rows st @
                [\<lparr>country_label = country,
                  category = cat_key,
                  name = item.name it,
                  also_known_as = item.also_known_as it,
                  official_website = item.official_website it,
                  confidence = item.confidence it,
                  evidence = item.evidence it,
                  comment = item.comment it,
                  source = ''chatgpt''\<rparr>]\<rparr>))"

text \<open>The body of the inner loop of \<open>main\<close>: one country and one category.\<close>

definition seed_unit ::
  "llm \<Rightarrow> args \<Rightarrow> string set \<Rightarrow> string \<Rightarrow> string \<times> string \<Rightarrow> seeding \<Rightarrow> error + seeding" where
  "seed_unit client a manual_keys country cat st =
     (case cat of (cat_key, cat_desc) \<Rightarrow>
        (case call_chatgpt client country cat_key cat_desc (max_items a) st of
           Inl e \<Rightarrow> Inl e
         | Inr (items, st1) \<Rightarrow>
             (case (if verify a \<and> items \<noteq> []
                    then verify_loop client a country cat_key cat_desc items [] st1
                    else Inr (items, st1)) of
                Inl e \<Rightarrow> Inl e
              | Inr (items', st2) \<Rightarrow>
                  (let st3 = emit_loop a manual_keys country cat_key items' st2
                   in Inr (st3\<lparr>naps := naps st3 @ [sleep a]\<rparr>)))))"

fun category_loop ::
  "llm \<Rightarrow> args \<Rightarrow> string set \<Rightarrow> string \<Rightarrow> (string \<times> string) list \<Rightarrow> seeding \<Rightarrow> error + seeding" where
  "category_loop client a manual_keys country [] st = Inr st"
| "category_loop client a manual_keys country (cat # cats) st =
     (case seed_unit client a manual_keys country cat st of
        Inl e \<Rightarrow> Inl e
      | Inr st' \<Rightarrow> category_loop client a manual_keys country cats st')"

fun country_loop ::
  "llm \<Rightarrow> args \<Rightarrow> string set \<Rightarrow> string list \<Rightarrow> seeding \<Rightarrow> error + seeding" where
  "country_loop client a manual_keys [] st = Inr st"
| "country_loop client a manual_keys (country # countries) st =
     (case category_loop client a manual_keys country CATEGORIES st of
        Inl e \<Rightarrow> Inl e
      | Inr st' \<Rightarrow> country_loop client a manual_keys countries st')"

text \<open>
  \<open>main\<close> from the loaded country list and manual keys on: the rows it hands to
  \<open>write_csv\<close>, or the exception that ends the run before anything is written.
\<close>

definition main :: "llm \<Rightarrow> args \<Rightarrow> string list \<Rightarrow> string set \<Rightarrow> error + SeedRow list" where
  "main client a countries manual_keys =
     (case country_loop client a manual_keys countries
             \<lparr>llm_calls = 0, naps = [], rows = [], seen_keys = {}\<rparr> of
        Inl e \<Rightarrow> Inl e
      | Inr st \<Rightarrow> Inr (rows st))"

section \<open>Vocabulary of the statements\<close>

text \<open>
  The trimmed string a field of a decoded item stands for: empty when the field is
  absent or is not a string.
\<close>

definition field_text :: "(string \<times> json) list \<Rightarrow> string \<Rightarrow> string" where
  "field_text d f = (case map_of d f of Some (JStr s) \<Rightarrow> strip s | _ \<Rightarrow> [])"



text \<open>The dicts among the elements of a decoded array, in order.\<close>

fun dicts :: "json list \<Rightarrow> (string \<times> json) list list" where
  "dicts [] = []"
| "dicts (JObj d # xs) = d # dicts xs"
| "dicts (x # xs) = dicts xs"

section \<open>Properties of the string functions\<close>

lemma str_in_iff: "str_in k t \<longleftrightarrow> (\<exists>p s. t = p @ k @ s)"
proof (induction t)
  case Nil
  then show ?case by auto
next
  case (Cons c cs)
  show ?case
  proof
    assume "str_in k (c # cs)"
    then consider "prefix k (c # cs)" | "str_in k cs" by auto
    then show "\<exists>p s. c # cs = p @ k @ s"
    proof cases
      case 1
      then obtain s where "c # cs = k @ s" by (auto simp: prefix_def)
      then have "c # cs = [] @ k @ s" by simp
      then show ?thesis by blast
    next
      case 2
      with Cons.IH obtain p s where "cs = p @ k @ s" by blast
      then have "c # cs = (c # p) @ k @ s" by simp
      then show ?thesis by blast
    qed
  next
    assume "\<exists>p s. c # cs = p @ k @ s"
    then obtain p s where ps: "c # cs = p @ k @ s" by blast
    show "str_in k (c # cs)"
    proof (cases p)
      case Nil
      with ps have "prefix k (c # cs)" by (simp add: prefix_def)
      then show ?thesis by simp
    next
      case (Cons a p')
      with ps have "cs = p' @ k @ s" by simp
      with Cons.IH have "str_in k cs" by blast
      then show ?thesis by simp
    qed
  qed
qed

lemma strip_blank:
  assumes "list_all isspace s"
  shows "strip s = []"
proof -
  have d: "dropWhile isspace s = []"
    using assms by (induction s) auto
  show ?thesis unfolding strip_def lstrip_def rstrip_def d by simp
qed

lemma strip_empty_iff: "strip s = [] \<longleftrightarrow> list_all isspace s"
proof
  assume e: "strip s = []"
  show "list_all isspace s"
  proof (cases "dropWhile isspace s")
    case Nil
    then show ?thesis by (simp add: list_all_iff dropWhile_eq_Nil_conv)
  next
    case (Cons a as)
    then have "\<not> isspace a" using hd_dropWhile [of isspace s] by simp
    moreover from e Cons have "\<forall>x\<in>set (a # as). isspace x"
      by (simp add: strip_def lstrip_def rstrip_def dropWhile_eq_Nil_conv)
    ultimately show ?thesis by simp
  qed
qed (rule strip_blank)






lemma any_in_iff: "any_in kws text \<longleftrightarrow> (\<exists>k\<in>set kws. \<exists>p s. text = p @ k @ s)"
  by (simp add: any_in_def list_ex_iff str_in_iff)

section \<open>The text normalizer\<close>

text \<open>
  C1 (normalization is idempotent) fails on the code. \<open>normalize_name\<close> collapses the
  whitespace runs before it removes the characters outside the kept set, so a removed
  character between two spaces leaves two adjacent spaces in the result: \<open>"a ! b"\<close>
  normalizes to \<open>"a  b"\<close> (two spaces), and normalizing that again gives \<open>"a b"\<close>.
\<close>

theorem normalize_name_not_idempotent:
  "normalize_name ''a ! b'' = ''a  b''
   \<and> normalize_name (normalize_name ''a ! b'') = ''a b''
   \<and> normalize_name (normalize_name ''a ! b'') \<noteq> normalize_name ''a ! b''"
  by code_simp

section \<open>The deduplicator\<close>




section \<open>The relevance filter\<close>

lemma filter_relevant_filter:
  "filter_relevant rs =
     filter (\<lambda>r. lower (or_empty (map_of r ''operator_label'')) \<noteq> []
                 \<and> is_relevant (map_of r ''category'') (label_text r)) rs"
  by (induction rs) (simp_all add: Let_def label_text_def)

text \<open>
  C2 as the spec states it (the TSO keywords are transmission, system operator, grid
  operator and operator) fails on the code, whose fourth keyword is \<open>tso\<close>: the text
  \<open>"tso"\<close> passes the test without holding any of the spec's keywords, and the text
  \<open>"operator"\<close> holds one and fails the test.
\<close>

theorem is_relevant_tso_counterexample:
  "is_relevant (Some (Some ''TSO'')) ''tso''
   \<and> \<not> any_in [''transmission'', ''system operator'', ''grid operator'', ''operator''] ''tso''
   \<and> \<not> is_relevant (Some (Some ''TSO'')) ''operator''
   \<and> any_in [''transmission'', ''system operator'', ''grid operator'', ''operator''] ''operator''"
  by code_simp

text \<open>
  C2, amended: for the TSO category the relevance test of \<open>filter_relevant\<close> is exactly
  "any keyword present" over the keywords transmission, system operator, grid operator
  and tso: it holds of a text if and only if one of these four is a substring of the
  text. \<open>filter_relevant\<close> keeps exactly the rows with a non-empty label whose
  lower-cased label, a space and the lower-cased description pass the test of their
  category.
\<close>

theorem is_relevant_tso_keywords:
  "(is_relevant (Some (Some ''TSO'')) text \<longleftrightarrow>
      (\<exists>k\<in>{''transmission'', ''system operator'', ''grid operator'', ''tso''}.
         \<exists>p s. text = p @ k @ s))
   \<and> filter_relevant rs =
       filter (\<lambda>r. lower (or_empty (map_of r ''operator_label'')) \<noteq> []
                   \<and> is_relevant (map_of r ''category'') (label_text r)) rs"
proof -
  have l: "lower ''tsO'' = ''tso''" by code_simp
  have "is_relevant (Some (Some ''TSO'')) text \<longleftrightarrow>
      (\<exists>k\<in>{''transmission'', ''system operator'', ''grid operator'', ''tso''}.
         \<exists>p s. text = p @ k @ s)"
    unfolding is_relevant_def l by (simp add: any_in_iff)
  then show ?thesis using filter_relevant_filter by blast
qed

text \<open>
  C4 as the spec states it (the relevance test fails with an error on a category
  outside the five fixed ones) fails on the code: the test of \<open>filter_relevant\<close> ends in
  \<open>else: keep = True\<close>, so a labelled record of an unknown category passes silently.
\<close>

theorem unknown_category_passes_counterexample:
  "is_relevant (Some (Some ''Utility'')) ''acme power '' = True
   \<and> filter_relevant [[(''category'', Some ''Utility''), (''operator_label'', Some ''Acme Power'')]]
       = [[(''category'', Some ''Utility''), (''operator_label'', Some ''Acme Power'')]]"
  by code_simp

text \<open>
  C4, amended: for every category value other than TSO, Regulator and Ministry (the
  categories RenewablesAgency and NuclearAgency among them) the knowledge-graph fetcher
  fails with \<open>ValueError("Unknown category: ...")\<close> before it makes any request, and
  the relevance test of \<open>filter_relevant\<close> raises nothing and passes every text.
\<close>

theorem unknown_category_fetch_error:
  assumes "cat \<notin> {''TSO'', ''Regulator'', ''Ministry''}"
  shows "fetch_candidates_for_country srv country_qid cat sleep_s limit w
           = (Inl (ValueError (''Unknown category: '' @ cat)), w)
         \<and> is_relevant (Some (Some cat)) text"
  using assms by (simp add: fetch_candidates_for_country_def category_types_def is_relevant_def)

theorem unknown_category_fetch_error_witness:
  "fetch_candidates_for_country (\<lambda>n q. Inr []) ''Q114'' ''NuclearAgency'' (4 / 5) 2000
       \<lparr>requests_made = 0, slept = []\<rparr>
     = (Inl (ValueError ''Unknown category: NuclearAgency''), \<lparr>requests_made = 0, slept = []\<rparr>)
   \<and> is_relevant (Some (Some ''NuclearAgency'')) ''atomic energy commission''"
proof -
  have h: "''NuclearAgency'' \<notin> {''TSO'', ''Regulator'', ''Ministry''}" by simp
  from unknown_category_fetch_error [OF h] show ?thesis by simp
qed

section \<open>The response parser\<close>

text \<open>
  C5 (parsing never raises; a schema mismatch gives an empty list) fails on the code.
  \<open>_safe_parse_items\<close> catches \<open>JSONDecodeError\<close> and checks that \<open>items\<close> is a list and
  each item a dict, but it calls \<open>obj.get\<close> without checking that the decoded value is a
  dict, and \<open>.strip()\<close> on any true field value without checking that it is a string.
  The response text \<open>[]\<close> decodes to the empty list, which has no \<open>get\<close>; an item
  whose name is the number 7 has no \<open>strip\<close>.
\<close>

theorem safe_parse_items_raises:
  "safe_parse_items (Inr (JArr [])) = Inl (AttributeError ''list'' ''get'')
   \<and> safe_parse_items (Inr (JObj [(''items'', JArr [JObj [(''name'', JInt 7)]])]))
       = Inl (AttributeError ''int'' ''strip'')"
  by code_simp

section \<open>The retry loop of the graph query\<close>

lemma sparql_attempts_all_fail:
  assumes "\<forall>k<length as. isl (srv (requests_made w + k) q)"
  shows "sparql_attempts srv q b le as w =
     (Inl (if as = [] then le else Some (projl (srv (requests_made w + length as - 1) q))),
      w\<lparr>requests_made := requests_made w + length as,
        slept := slept w @ map (\<lambda>a. b * real a) as\<rparr>)"
  using assms
proof (induction as arbitrary: w le)
  case Nil
  then show ?case by simp
next
  case (Cons a as)
  from Cons.prems have "isl (srv (requests_made w) q)" by force
  then obtain e where e: "srv (requests_made w) q = Inl e" by (auto simp: isl_def)
  let ?w = "w\<lparr>requests_made := Suc (requests_made w), slept := slept w @ [b * real a]\<rparr>"
  have "\<forall>k<length as. isl (srv (requests_made ?w + k) q)"
  proof (intro allI impI)
    fix k assume "k < length as"
    then have "Suc k < length (a # as)" by simp
    with Cons.prems have "isl (srv (requests_made w + Suc k) q)" by blast
    then show "isl (srv (requests_made ?w + k) q)" by simp
  qed
  from Cons.IH [OF this, of "Some e"]
  have ih: "sparql_attempts srv q b (Some e) as ?w =
     (Inl (if as = [] then Some e else Some (projl (srv (requests_made ?w + length as - 1) q))),
      ?w\<lparr>requests_made := requests_made ?w + length as,
         slept := slept ?w @ map (\<lambda>a. b * real a) as\<rparr>)" .
  show ?case
  proof (cases "as = []")
    case True
    with e ih show ?thesis by simp
  next
    case False
    then have "requests_made ?w + length as - 1 = requests_made w + length (a # as) - 1"
      by (cases as) simp_all
    with e ih False show ?thesis by simp
  qed
qed

lemma sparql_attempts_success:
  assumes "k < length as"
    and "\<forall>j<k. isl (srv (requests_made w + j) q)"
    and "srv (requests_made w + k) q = Inr d"
  shows "sparql_attempts srv q b le as w =
     (Inr d,
      w\<lparr>requests_made := requests_made w + k + 1,
        slept := slept w @ map (\<lambda>a. b * real a) (take k as)\<rparr>)"
  using assms
proof (induction as arbitrary: w le k)
  case Nil
  then show ?case by simp
next
  case (Cons a as)
  show ?case
  proof (cases k)
    case 0
    with Cons.prems show ?thesis by simp
  next
    case (Suc k')
    from Cons.prems Suc have "isl (srv (requests_made w + 0) q)" by blast
    then obtain e where e: "srv (requests_made w) q = Inl e" by (auto simp: isl_def)
    let ?w = "w\<lparr>requests_made := Suc (requests_made w), slept := slept w @ [b * real a]\<rparr>"
    have k': "k' < length as" using Cons.prems Suc by simp
    have f: "\<forall>j<k'. isl (srv (requests_made ?w + j) q)"
    proof (intro allI impI)
      fix j assume "j < k'"
      then have "Suc j < k" using Suc by simp
      with Cons.prems have "isl (srv (requests_made w + Suc j) q)" by blast
      then show "isl (srv (requests_made ?w + j) q)" by simp
    qed
    have s: "srv (requests_made ?w + k') q = Inr d" using Cons.prems Suc by simp
    from Cons.IH [OF k' f s, of "Some e"] e Suc show ?thesis by simp
  qed
qed

text \<open>
  C6: \<open>_sparql\<close> with a positive attempt bound \<open>retries\<close> (3 at its only call). When
  every attempt fails it makes exactly \<open>retries\<close> requests, sleeps
  \<open>backoff_s * attempt\<close> after each failed attempt, and raises the error of the last
  attempt. When attempt \<open>k + 1\<close> is the first to succeed it returns that response after
  \<open>k + 1\<close> requests and the \<open>k\<close> sleeps of the failed attempts, and makes no further
  request. The pauses are real numbers here; with the base 2.0 of the only call the
  products of the source's floats are exact.
\<close>

theorem sparql_retry_policy:
  assumes "0 < retries"
  shows "((\<forall>k<retries. isl (srv (requests_made w + k) q)) \<longrightarrow>
            sparql srv q retries b w =
              (Inl (projl (srv (requests_made w + retries - 1) q)),
               w\<lparr>requests_made := requests_made w + retries,
                 slept := slept w @ map (\<lambda>a. b * real a) [1..<retries + 1]\<rparr>))
       \<and> (\<forall>k<retries. (\<forall>j<k. isl (srv (requests_made w + j) q))
              \<and> \<not> isl (srv (requests_made w + k) q) \<longrightarrow>
            sparql srv q retries b w =
              (Inr (projr (srv (requests_made w + k) q)),
               w\<lparr>requests_made := requests_made w + k + 1,
                 slept := slept w @ map (\<lambda>a. b * real a) [1..<k + 1]\<rparr>))"
proof (intro conjI allI impI)
  define as where "as = [1..<retries + 1]"
  have len: "length as = retries" by (simp add: as_def)
  have ne: "as \<noteq> []" using assms len by auto
  assume f: "\<forall>k<retries. isl (srv (requests_made w + k) q)"
  then have "\<forall>k<length as. isl (srv (requests_made w + k) q)" using len by simp
  from sparql_attempts_all_fail [where as = as and srv = srv and w = w
      and q = q and b = b and le = None, OF this] ne len
  have "sparql_attempts srv q b None as w =
      (Inl (Some (projl (srv (requests_made w + retries - 1) q))),
       w\<lparr>requests_made := requests_made w + retries,
         slept := slept w @ map (\<lambda>a. b * real a) as\<rparr>)"
    by simp
  then show "sparql srv q retries b w =
      (Inl (projl (srv (requests_made w + retries - 1) q)),
       w\<lparr>requests_made := requests_made w + retries,
         slept := slept w @ map (\<lambda>a. b * real a) [1..<retries + 1]\<rparr>)"
    by (simp only: sparql_def as_def [symmetric]) simp
next
  fix k
  define as where "as = [1..<retries + 1]"
  define bs where "bs = [1..<k + 1]"
  assume k: "k < retries"
    and h: "(\<forall>j<k. isl (srv (requests_made w + j) q)) \<and> \<not> isl (srv (requests_made w + k) q)"
  from h obtain d where d: "srv (requests_made w + k) q = Inr d"
    by (cases "srv (requests_made w + k) q") auto
  have l: "k < length as" using k by (simp add: as_def)
  have t: "take k as = bs" using k by (simp add: take_upt as_def bs_def)
  from h have "\<forall>j<k. isl (srv (requests_made w + j) q)" by blast
  from sparql_attempts_success [where as = as and srv = srv and w = w
      and q = q and b = b and le = None and k = k and d = d, OF l this d] t
  have "sparql_attempts srv q b None as w =
      (Inr d, w\<lparr>requests_made := requests_made w + k + 1,
                slept := slept w @ map (\<lambda>a. b * real a) bs\<rparr>)"
    by simp
  then show "sparql srv q retries b w =
      (Inr (projr (srv (requests_made w + k) q)),
       w\<lparr>requests_made := requests_made w + k + 1,
         slept := slept w @ map (\<lambda>a. b * real a) [1..<k + 1]\<rparr>)"
    using d by (simp only: sparql_def as_def [symmetric] bs_def [symmetric]) simp
qed

theorem sparql_retry_policy_witness:
  "sparql (\<lambda>n q. Inl (RequestException (if n = 2 then ''503'' else ''timeout'')))
       \<lparr>q_country = ''Q114'', q_types = [''Q112046''], q_limit = 2000\<rparr> 3 2
       \<lparr>requests_made = 0, slept = []\<rparr>
     = (Inl (RequestException ''503''), \<lparr>requests_made = 3, slept = [2, 4, 6]\<rparr>)
   \<and> sparql (\<lambda>n q. if n < 2 then Inl (RequestException ''timeout'') else Inr [])
       \<lparr>q_country = ''Q114'', q_types = [''Q112046''], q_limit = 2000\<rparr> 3 2
       \<lparr>requests_made = 0, slept = []\<rparr>
     = (Inr [], \<lparr>requests_made = 3, slept = [2, 4]\<rparr>)"
proof -
  let ?q = "\<lparr>q_country = ''Q114'', q_types = [''Q112046''], q_limit = 2000\<rparr>"
  let ?w = "\<lparr>requests_made = 0, slept = []\<rparr>"
  let ?f = "\<lambda>(n::nat) (q::sparql_query).
    (Inl (RequestException (if n = 2 then ''503'' else ''timeout'')) :: error + binding list)"
  let ?g = "\<lambda>(n::nat) (q::sparql_query).
    (if n < 2 then Inl (RequestException ''timeout'') else Inr [] :: error + binding list)"
  have r: "(0::nat) < 3" by simp
  have u: "[Suc 0..<4] = [1, 2, 3]" "[Suc 0..<3] = [1, 2]" by (simp_all add: upt_rec)
  have a: "\<forall>k<3. isl (?f (requests_made ?w + k) ?q)" by simp
  have b: "(\<forall>j<2. isl (?g (requests_made ?w + j) ?q)) \<and> \<not> isl (?g (requests_made ?w + 2) ?q)"
    by simp
  note f = sparql_retry_policy [OF r, of ?f ?w ?q 2, THEN conjunct1, THEN mp, OF a]
  note g = sparql_retry_policy [OF r, of ?g ?w ?q 2, THEN conjunct2, rule_format, of 2]
  from f have 1: "sparql ?f ?q 3 2 ?w
     = (Inl (RequestException ''503''), \<lparr>requests_made = 3, slept = [2, 4, 6]\<rparr>)"
    by (simp add: u)
  from g b have 2: "sparql ?g ?q 3 2 ?w = (Inr [], \<lparr>requests_made = 3, slept = [2, 4]\<rparr>)"
    by (simp add: u)
  from 1 2 show ?thesis by simp
qed

section \<open>The keyword filter of the fetcher\<close>

lemma keyword_filter_filter:
  "keyword_filter kw rs =
     filter (\<lambda>r. any_in (map normalize_for_match kw) (normalize_for_match (label_text r))) rs"
  by (induction rs) (simp_all add: Let_def label_text_def)

text \<open>
  C3 as the spec states it fails on the code in both parts. The fetcher has keyword
  lists of its own, which are not those of the rule set of \<open>filter_relevant\<close>, and it
  never looks at whether a record has a label. For the Regulator category and a
  response with one entity labelled "Energy Board" and one entity without a label
  described as "Power company", the fetcher returns both records: the first holds
  none of the rule set's Regulator keywords, the second has no label, and
  \<open>filter_relevant\<close> drops both.
\<close>

theorem fetch_rule_set_counterexample:
  "fst (fetch_candidates_for_country
         (\<lambda>n q. Inr [[(''item'', [(''value'', ''http://www.wikidata.org/entity/Q1'')]),
                       (''itemLabel'', [(''value'', ''Energy Board'')])],
                      [(''item'', [(''value'', ''http://www.wikidata.org/entity/Q2'')]),
                       (''desc'', [(''value'', ''Power company'')])]])
         ''Q114'' ''Regulator'' (4 / 5) 2000 \<lparr>requests_made = 0, slept = []\<rparr>)
     = Inr [[(''source'', Some ''wikidata''), (''category'', Some ''Regulator''),
             (''operator_qid'', Some ''Q1''), (''operator_label'', Some ''Energy Board''),
             (''operator_type_qid'', None), (''operator_type_label'', None),
             (''country_qid'', None), (''country_label'', None), (''website'', None),
             (''description_en'', None)],
            [(''source'', Some ''wikidata''), (''category'', Some ''Regulator''),
             (''operator_qid'', Some ''Q2''), (''operator_label'', None),
             (''operator_type_qid'', None), (''operator_type_label'', None),
             (''country_qid'', None), (''country_label'', None), (''website'', None),
             (''description_en'', Some ''Power company'')]]
   \<and> \<not> is_relevant (Some (Some ''Regulator'')) (normalize_for_match ''energy board '')
   \<and> \<not> is_relevant (Some (Some ''Regulator'')) (normalize_for_match '' power company'')
   \<and> filter_relevant
        [[(''source'', Some ''wikidata''), (''category'', Some ''Regulator''),
          (''operator_qid'', Some ''Q1''), (''operator_label'', Some ''Energy Board''),
          (''operator_type_qid'', None), (''operator_type_label'', None),
          (''country_qid'', None), (''country_label'', None), (''website'', None),
          (''description_en'', None)],
         [(''source'', Some ''wikidata''), (''category'', Some ''Regulator''),
          (''operator_qid'', Some ''Q2''), (''operator_label'', None),
          (''operator_type_qid'', None), (''operator_type_label'', None),
          (''country_qid'', None), (''country_label'', None), (''website'', None),
          (''description_en'', Some ''Power company'')]] = []"
  by code_simp

text \<open>
  C3, amended: for every country and every category the fetcher accepts (TSO,
  Regulator, Ministry), the records the fetcher returns are exactly the records built
  from the response whose normalized text (lower-cased label, a space, lower-cased
  description) contains at least one normalized keyword of the fetcher's own list for
  the category (TSO: transmission, grid, system operator, operator, electricidad,
  energia; Regulator: energy, electricity, power, grid, renewable, renewables,
  electricidad, energia; Ministry: energy, electricity, power); records failing that
  keyword test never appear in the result.
\<close>

theorem fetch_keyword_postfilter:
  assumes "fetch_candidates_for_country srv country_qid cat sleep_s limit w = (Inr out, w')"
  shows "\<exists>strict fallback kw rs.
      category_types cat = Inr (strict, fallback, kw)
    \<and> kw = (if cat = ''TSO'' then
              [''transmission'', ''grid'', ''system operator'', ''operator'', ''electricidad'',
               ''energia'']
            else if cat = ''Regulator'' then
              [''energy'', ''electricity'', ''power'', ''grid'', ''renewable'', ''renewables'',
               ''electricidad'', ''energia'']
            else [''energy'', ''electricity'', ''power''])
    \<and> cat \<in> {''TSO'', ''Regulator'', ''Ministry''}
    \<and> run srv country_qid cat sleep_s limit (fromkeys (strict @ fallback)) w = (Inr rs, w')
    \<and> out = filter (\<lambda>r. \<exists>k\<in>set kw. \<exists>p s.
               normalize_for_match (label_text r) = p @ normalize_for_match k @ s) rs"
proof -
  from assms obtain strict fallback kw where
    c: "category_types cat = Inr (strict, fallback, kw)"
    by (cases "category_types cat") (auto simp: fetch_candidates_for_country_def)
  from assms c obtain rs where
    r: "run srv country_qid cat sleep_s limit (fromkeys (strict @ fallback)) w = (Inr rs, w')"
    and o: "out = keyword_filter kw rs"
    by (auto simp: fetch_candidates_for_country_def Let_def split: prod.splits sum.splits)
  from c have k: "kw = (if cat = ''TSO'' then
              [''transmission'', ''grid'', ''system operator'', ''operator'', ''electricidad'',
               ''energia'']
            else if cat = ''Regulator'' then
              [''energy'', ''electricity'', ''power'', ''grid'', ''renewable'', ''renewables'',
               ''electricidad'', ''energia'']
            else [''energy'', ''electricity'', ''power''])"
    and m: "cat \<in> {''TSO'', ''Regulator'', ''Ministry''}"
    by (auto simp: category_types_def split: if_splits)
  have "out = filter (\<lambda>r. \<exists>k\<in>set kw. \<exists>p s.
               normalize_for_match (label_text r) = p @ normalize_for_match k @ s) rs"
    unfolding o keyword_filter_filter by (simp add: any_in_iff)
  with c r k m show ?thesis by blast
qed

theorem fetch_keyword_postfilter_witness:
  "\<exists>strict fallback kw rs.
      category_types ''Ministry'' = Inr (strict, fallback, kw)
    \<and> kw = [''energy'', ''electricity'', ''power'']
    \<and> run (\<lambda>n q. Inr [[(''item'', [(''value'', ''http://www.wikidata.org/entity/Q1'')]),
                        (''itemLabel'', [(''value'', ''Ministry of Energy'')])],
                       [(''item'', [(''value'', ''http://www.wikidata.org/entity/Q2'')]),
                        (''itemLabel'', [(''value'', ''Kenya Wildlife NGO'')])]])
          ''Q114'' ''Ministry'' (4 / 5) 2000 (fromkeys (strict @ fallback))
          \<lparr>requests_made = 0, slept = []\<rparr>
        = (Inr rs, \<lparr>requests_made = 1, slept = [4 / 5]\<rparr>)
    \<and> [[(''source'', Some ''wikidata''), (''category'', Some ''Ministry''),
         (''operator_qid'', Some ''Q1''), (''operator_label'', Some ''Ministry of Energy''),
         (''operator_type_qid'', None), (''operator_type_label'', None),
         (''country_qid'', None), (''country_label'', None), (''website'', None),
         (''description_en'', None)]]
        = filter (\<lambda>r. \<exists>k\<in>set kw. \<exists>p s.
               normalize_for_match (label_text r) = p @ normalize_for_match k @ s) rs"
proof -
  let ?srv = "\<lambda>(n::nat) (q::sparql_query).
       (Inr [[(''item'', [(''value'', ''http://www.wikidata.org/entity/Q1'')]),
              (''itemLabel'', [(''value'', ''Ministry of Energy'')])],
             [(''item'', [(''value'', ''http://www.wikidata.org/entity/Q2'')]),
              (''itemLabel'', [(''value'', ''Kenya Wildlife NGO'')])]] :: error + binding list)"
  have h: "fetch_candidates_for_country ?srv ''Q114'' ''Ministry'' (4 / 5) 2000
             \<lparr>requests_made = 0, slept = []\<rparr>
     = (Inr [[(''source'', Some ''wikidata''), (''category'', Some ''Ministry''),
              (''operator_qid'', Some ''Q1''), (''operator_label'', Some ''Ministry of Energy''),
              (''operator_type_qid'', None), (''operator_type_label'', None),
              (''country_qid'', None), (''country_label'', None), (''website'', None),
              (''description_en'', None)]],
        \<lparr>requests_made = 1, slept = [4 / 5]\<rparr>)"
    by code_simp
  from fetch_keyword_postfilter [OF h] show ?thesis by simp
qed

section \<open>The response parser on well-formed responses\<close>

lemma strip_Nil: "strip [] = []"
  by (simp add: strip_def lstrip_def rstrip_def)

lemma strip_not_blank:
  assumes "strip s \<noteq> []"
  shows "\<not> list_all isspace (strip s)"
proof -
  let ?t = "dropWhile isspace (rev (dropWhile isspace s))"
  from assms have ne: "?t \<noteq> []" by (simp add: strip_def lstrip_def rstrip_def)
  then have "\<not> isspace (hd ?t)" by (rule hd_dropWhile)
  moreover from ne have "hd ?t \<in> set (strip s)"
    by (simp add: strip_def lstrip_def rstrip_def)
  ultimately show ?thesis by (auto simp: list_all_iff)
qed

lemma field_text_not_blank:
  "field_text d f \<noteq> [] \<Longrightarrow> \<not> list_all isspace (field_text d f)"
  by (auto simp: field_text_def strip_not_blank split: option.splits json.splits)

lemma field_text_empty_iff:
  "field_text d f = [] \<longleftrightarrow>
     (case map_of d f of Some (JStr s) \<Rightarrow> list_all isspace s | _ \<Rightarrow> True)"
  by (auto simp: field_text_def strip_empty_iff split: option.splits json.splits)

lemma field_strip_text: "field_strip d f = Inr s \<Longrightarrow> s = field_text d f"
  by (auto simp: field_strip_def field_text_def strip_Nil split: option.splits json.splits if_splits)


lemma parse_item_Some:
  assumes "parse_item d = Inr (Some it)"
  shows "item.name it = field_text d ''name'' \<and> field_text d ''name'' \<noteq> []
    \<and> item.confidence it =
        (if field_text d ''confidence'' \<in> {''HIGH'', ''MED'', ''LOW''}
         then field_text d ''confidence'' else ''LOW'')"
proof -
  from assms obtain n k a w e c where
    n: "field_strip d ''name'' = Inr n" and a: "field_strip d ''also_known_as'' = Inr a"
    and w: "field_strip d ''official_website'' = Inr w"
    and k: "field_strip d ''confidence'' = Inr k"
    and e: "field_strip d ''evidence'' = Inr e" and c: "field_strip d ''comment'' = Inr c"
    by (auto simp: parse_item_def and_then_def split: sum.splits)
  from n k have n': "n = field_text d ''name''" and k': "k = field_text d ''confidence''"
    by (auto dest: field_strip_text)
  from assms n a w k e c show ?thesis
    unfolding n' k'
    by (auto simp: parse_item_def and_then_def Let_def split: if_splits)
qed

lemma parse_item_None:
  assumes "parse_item d = Inr None"
  shows "field_text d ''name'' = []"
proof -
  from assms obtain n k a w e c where
    n: "field_strip d ''name'' = Inr n" and a: "field_strip d ''also_known_as'' = Inr a"
    and w: "field_strip d ''official_website'' = Inr w"
    and k: "field_strip d ''confidence'' = Inr k"
    and e: "field_strip d ''evidence'' = Inr e" and c: "field_strip d ''comment'' = Inr c"
    by (auto simp: parse_item_def and_then_def split: sum.splits)
  from n have n': "n = field_text d ''name''" by (rule field_strip_text)
  from assms n a w k e c show ?thesis
    unfolding n'
    by (auto simp: parse_item_def and_then_def Let_def split: if_splits)
qed


lemma parse_loop_spec:
  assumes "parse_loop xs acc = Inr out"
  shows "\<exists>new. out = acc @ new
    \<and> map item.name new = filter (\<lambda>n. n \<noteq> []) (map (\<lambda>d. field_text d ''name'') (dicts xs))
    \<and> map item.confidence new =
        map (\<lambda>d. if field_text d ''confidence'' \<in> {''HIGH'', ''MED'', ''LOW''}
                  then field_text d ''confidence'' else ''LOW'')
          (filter (\<lambda>d. field_text d ''name'' \<noteq> []) (dicts xs))"
  using assms
proof (induction xs acc rule: parse_loop.induct)
  case (1 out)
  then show ?case by simp
next
  case (2 it items acc)
  from "2.prems" obtain r where r: "parse_item it = Inr r"
    by (cases "parse_item it") auto
  show ?case
  proof (cases r)
    case None
    with r "2.prems" have "parse_loop items acc = Inr out" by simp
    from "2.IH"(1) [OF r None this] parse_item_None [of it] r None show ?thesis by simp
  next
    case (Some d)
    with r "2.prems" have "parse_loop items (acc @ [d]) = Inr out" by simp
    from "2.IH"(2) [OF r Some this] obtain new where
      new: "out = (acc @ [d]) @ new"
      "map item.name new
         = filter (\<lambda>n. n \<noteq> []) (map (\<lambda>d. field_text d ''name'') (dicts items))"
      "map item.confidence new =
        map (\<lambda>d. if field_text d ''confidence'' \<in> {''HIGH'', ''MED'', ''LOW''}
                  then field_text d ''confidence'' else ''LOW'')
          (filter (\<lambda>d. field_text d ''name'' \<noteq> []) (dicts items))"
      by blast
    from parse_item_Some [of it d] r Some have
      d: "item.name d = field_text it ''name''" "field_text it ''name'' \<noteq> []"
      "item.confidence d =
        (if field_text it ''confidence'' \<in> {''HIGH'', ''MED'', ''LOW''}
         then field_text it ''confidence'' else ''LOW'')"
      by simp_all
    have "out = acc @ (d # new)" using new(1) by simp
    moreover have "map item.name (d # new)
        = filter (\<lambda>n. n \<noteq> []) (map (\<lambda>d. field_text d ''name'') (dicts (JObj it # items)))"
      using new(2) d(1,2) by simp
    moreover have "map item.confidence (d # new) =
        map (\<lambda>d. if field_text d ''confidence'' \<in> {''HIGH'', ''MED'', ''LOW''}
                  then field_text d ''confidence'' else ''LOW'')
          (filter (\<lambda>d. field_text d ''name'' \<noteq> []) (dicts (JObj it # items)))"
      using new(3) d(2,3) by simp
    ultimately show ?thesis by blast
  qed
qed simp_all


lemma safe_parse_items_cases:
  assumes "safe_parse_items loaded = Inr out"
  shows "out = [] \<or> (\<exists>obj xs. loaded = Inr (JObj obj)
           \<and> map_of obj ''items'' = Some (JArr xs) \<and> parse_loop xs [] = Inr out)"
proof (cases loaded)
  case (Inl e)
  with assms show ?thesis by (simp add: safe_parse_items_def split: if_splits)
next
  case (Inr j)
  show ?thesis
  proof (cases j)
    case (JObj obj)
    show ?thesis
    proof (cases "map_of obj ''items''")
      case None
      with assms Inr JObj show ?thesis by (simp add: safe_parse_items_def)
    next
      case (Some x)
      with assms Inr JObj show ?thesis by (cases x) (simp_all add: safe_parse_items_def)
    qed
  qed (use assms Inr in \<open>simp_all add: safe_parse_items_def\<close>)
qed

lemma safe_parse_items_names:
  assumes "safe_parse_items loaded = Inr out"
  shows "\<forall>it\<in>set out. item.name it \<noteq> [] \<and> \<not> list_all isspace (item.name it)"
proof -
  from safe_parse_items_cases [OF assms] consider "out = []"
    | xs where "parse_loop xs [] = Inr out" by blast
  then show ?thesis
  proof cases
    case 1
    then show ?thesis by simp
  next
    case 2
    from parse_loop_spec [OF 2] have
      m: "map item.name out
           = filter (\<lambda>n. n \<noteq> []) (map (\<lambda>d. field_text d ''name'') (dicts xs))"
      by simp
    show ?thesis
    proof
      fix it assume "it \<in> set out"
      then have "item.name it \<in> set (map item.name out)" by simp
      then have "item.name it
          \<in> set (filter (\<lambda>n. n \<noteq> []) (map (\<lambda>d. field_text d ''name'') (dicts xs)))"
        by (simp only: m)
      then obtain d where "item.name it = field_text d ''name''" "item.name it \<noteq> []"
        by auto
      then show "item.name it \<noteq> [] \<and> \<not> list_all isspace (item.name it)"
        using field_text_not_blank [of d "''name''"] by simp
    qed
  qed
qed



section \<open>The verification pass\<close>





section \<open>Names of the emitted rows\<close>

lemma verify_loop_names:
  assumes "verify_loop client a c k d items acc st = Inr (out, st')"
    and "\<forall>it\<in>set items. item.name it \<noteq> [] \<and> \<not> list_all isspace (item.name it)"
    and "\<forall>it\<in>set acc. item.name it \<noteq> [] \<and> \<not> list_all isspace (item.name it)"
  shows "\<forall>it\<in>set out. item.name it \<noteq> [] \<and> \<not> list_all isspace (item.name it)"
  using assms
proof (induction items arbitrary: acc st)
  case Nil
  then show ?case by simp
next
  case (Cons it its)
  let ?r = "safe_parse_items (client (llm_calls st) (Verify c k d (item.name it)))"
  from Cons.prems(1) obtain r0 where r0: "?r = Inr r0"
    by (cases ?r) (simp_all add: verify_item_def)
  define x where "x = (case r0 of [] \<Rightarrow> it | v # vs \<Rightarrow> v)"
  define st2 where "st2 = st\<lparr>llm_calls := Suc (llm_calls st), naps := naps st @ [sleep a]\<rparr>"
  from Cons.prems(1) r0 have
    rec: "verify_loop client a c k d its (acc @ [x]) st2 = Inr (out, st')"
    by (cases r0) (simp_all add: verify_item_def x_def st2_def)
  have gx: "item.name x \<noteq> [] \<and> \<not> list_all isspace (item.name x)"
  proof (cases r0)
    case Nil
    with Cons.prems(2) show ?thesis by (simp add: x_def)
  next
    case (Cons v vs)
    with safe_parse_items_names [OF r0] show ?thesis by (simp add: x_def)
  qed
  have its: "\<forall>it\<in>set its. item.name it \<noteq> [] \<and> \<not> list_all isspace (item.name it)"
    using Cons.prems(2) by simp
  have acc: "\<forall>it\<in>set (acc @ [x]). item.name it \<noteq> [] \<and> \<not> list_all isspace (item.name it)"
    using Cons.prems(3) gx by simp
  from Cons.IH [OF rec its acc] show ?case .
qed

lemma emit_loop_names:
  assumes "\<forall>it\<in>set items. item.name it \<noteq> [] \<and> \<not> list_all isspace (item.name it)"
    and "\<forall>r\<in>set (rows st). SeedRow.name r \<noteq> [] \<and> \<not> list_all isspace (SeedRow.name r)"
  shows "\<forall>r\<in>set (rows (emit_loop a manual country cat_key items st)).
           SeedRow.name r \<noteq> [] \<and> \<not> list_all isspace (SeedRow.name r)"
  using assms
proof (induction items arbitrary: st)
  case Nil
  then show ?case by simp
next
  case (Cons it its)
  have its: "\<forall>it\<in>set its. item.name it \<noteq> [] \<and> \<not> list_all isspace (item.name it)"
    using Cons.prems(1) by simp
  have it: "item.name it \<noteq> [] \<and> \<not> list_all isspace (item.name it)"
    using Cons.prems(1) by simp
  let ?k = "normalize_for_match (item.name it)"
  let ?st = "st\<lparr>seen_keys := insert ?k (seen_keys st),
              rows := rows st @
                [\<lparr>country_label = country, category = cat_key, name = item.name it,
                  also_known_as = item.also_known_as it,
                  official_website = item.official_website it,
                  confidence = item.confidence it, evidence = item.evidence it,
                  comment = item.comment it, source = ''chatgpt''\<rparr>]\<rparr>"
  have new: "\<forall>r\<in>set (rows ?st). SeedRow.name r \<noteq> [] \<and> \<not> list_all isspace (SeedRow.name r)"
    using Cons.prems(2) it by simp
  show ?case
  proof (cases "?k = [] \<or> ?k \<in> seen_keys st \<or> (dedupe_against_manual a \<and> ?k \<in> manual)")
    case True
    then have "emit_loop a manual country cat_key (it # its) st
              = emit_loop a manual country cat_key its st"
      by (auto simp: Let_def)
    with Cons.IH [OF its Cons.prems(2)] show ?thesis by simp
  next
    case False
    then have "emit_loop a manual country cat_key (it # its) st
              = emit_loop a manual country cat_key its ?st"
      by (auto simp: Let_def)
    with Cons.IH [OF its new] show ?thesis by simp
  qed
qed

lemma seed_unit_names:
  assumes "seed_unit client a manual country cat st = Inr st'"
    and "\<forall>r\<in>set (rows st). SeedRow.name r \<noteq> [] \<and> \<not> list_all isspace (SeedRow.name r)"
  shows "\<forall>r\<in>set (rows st'). SeedRow.name r \<noteq> [] \<and> \<not> list_all isspace (SeedRow.name r)"
proof -
  obtain cat_key cat_desc where cat: "cat = (cat_key, cat_desc)" by (cases cat)
  let ?p = "safe_parse_items
     (client (llm_calls st) (Primary country cat_key cat_desc (max_items a)))"
  from assms(1) cat obtain items where p: "?p = Inr items"
    by (cases ?p) (simp_all add: seed_unit_def call_chatgpt_def)
  define st1 where "st1 = st\<lparr>llm_calls := Suc (llm_calls st)\<rparr>"
  have r1: "rows st1 = rows st" by (simp add: st1_def)
  have gi: "\<forall>it\<in>set items. item.name it \<noteq> [] \<and> \<not> list_all isspace (item.name it)"
    using p by (rule safe_parse_items_names)
  let ?v = "if verify a \<and> items \<noteq> []
            then verify_loop client a country cat_key cat_desc items [] st1
            else Inr (items, st1)"
  have u: "seed_unit client a manual country cat st =
      (case ?v of
         Inl e \<Rightarrow> Inl e
       | Inr (items', st2) \<Rightarrow>
           Inr ((emit_loop a manual country cat_key items' st2)
             \<lparr>naps := naps (emit_loop a manual country cat_key items' st2) @ [sleep a]\<rparr>))"
    using cat p
    by (simp add: seed_unit_def call_chatgpt_def st1_def Let_def split: sum.splits prod.splits)
  obtain items' st2 where v: "?v = Inr (items', st2)"
    and e: "st' = (emit_loop a manual country cat_key items' st2)
              \<lparr>naps := naps (emit_loop a manual country cat_key items' st2) @ [sleep a]\<rparr>"
  proof (cases ?v)
    case (Inl err)
    with u assms(1) show ?thesis by simp
  next
    case (Inr pr)
    obtain i2 s2 where pr: "pr = (i2, s2)" by (cases pr)
    with Inr u assms(1) that [of i2 s2] show ?thesis by simp
  qed
  have gi': "\<forall>it\<in>set items'. item.name it \<noteq> [] \<and> \<not> list_all isspace (item.name it)"
  proof (cases "verify a \<and> items \<noteq> []")
    case True
    with v have "verify_loop client a country cat_key cat_desc items [] st1 = Inr (items', st2)"
      by simp
    from verify_loop_names [OF this gi] show ?thesis by simp
  next
    case False
    with v gi show ?thesis by auto
  qed
  have "\<forall>r\<in>set (rows st1). SeedRow.name r \<noteq> [] \<and> \<not> list_all isspace (SeedRow.name r)"
    using assms(2) r1 by simp
  have r2: "rows st2 = rows st"
  proof (cases "verify a \<and> items \<noteq> []")
    case True
    with v have l: "verify_loop client a country cat_key cat_desc items [] st1 = Inr (items', st2)"
      by simp
    have "\<And>acc s out s'. verify_loop client a country cat_key cat_desc items acc s
        = Inr (out, s') \<Longrightarrow> rows s' = rows s"
    proof (induction items)
      case Nil
      then show ?case by simp
    next
      case (Cons it its)
      let ?r = "safe_parse_items
        (client (llm_calls s) (Verify country cat_key cat_desc (item.name it)))"
      from Cons.prems obtain r0 where r0: "?r = Inr r0"
        by (cases ?r) (simp_all add: verify_item_def)
      from Cons.prems r0 obtain x where
        "verify_loop client a country cat_key cat_desc its (acc @ [x])
           (s\<lparr>llm_calls := Suc (llm_calls s), naps := naps s @ [sleep a]\<rparr>) = Inr (out, s')"
        by (cases r0) (simp_all add: verify_item_def)
      from Cons.IH [OF this] show ?case by simp
    qed
    from this [OF l] r1 show ?thesis by simp
  next
    case False
    with v r1 show ?thesis by auto
  qed
  have "\<forall>r\<in>set (rows st2). SeedRow.name r \<noteq> [] \<and> \<not> list_all isspace (SeedRow.name r)"
    using assms(2) r2 by simp
  from emit_loop_names [OF gi' this] e show ?thesis by simp
qed

lemma category_loop_names:
  assumes "category_loop client a manual country cats st = Inr st'"
    and "\<forall>r\<in>set (rows st). SeedRow.name r \<noteq> [] \<and> \<not> list_all isspace (SeedRow.name r)"
  shows "\<forall>r\<in>set (rows st'). SeedRow.name r \<noteq> [] \<and> \<not> list_all isspace (SeedRow.name r)"
  using assms
proof (induction cats arbitrary: st)
  case Nil
  then show ?case by simp
next
  case (Cons cat cats)
  from Cons.prems(1) obtain st1 where
    u: "seed_unit client a manual country cat st = Inr st1"
    and l: "category_loop client a manual country cats st1 = Inr st'"
    by (cases "seed_unit client a manual country cat st") simp_all
  from Cons.IH [OF l seed_unit_names [OF u Cons.prems(2)]] show ?case .
qed

lemma country_loop_names:
  assumes "country_loop client a manual countries st = Inr st'"
    and "\<forall>r\<in>set (rows st). SeedRow.name r \<noteq> [] \<and> \<not> list_all isspace (SeedRow.name r)"
  shows "\<forall>r\<in>set (rows st'). SeedRow.name r \<noteq> [] \<and> \<not> list_all isspace (SeedRow.name r)"
  using assms
proof (induction countries arbitrary: st)
  case Nil
  then show ?case by simp
next
  case (Cons country countries)
  from Cons.prems(1) obtain st1 where
    u: "category_loop client a manual country CATEGORIES st = Inr st1"
    and l: "country_loop client a manual countries st1 = Inr st'"
    by (cases "category_loop client a manual country CATEGORIES st") simp_all
  from Cons.IH [OF l category_loop_names [OF u Cons.prems(2)]] show ?case .
qed

text \<open>
  C9: whatever the response, every item in the output of the parser has a name that is
  not empty and not whitespace only; for a response object with an \<open>items\<close> array the
  names of the output are exactly the non-empty trimmed names of its dicts, in order,
  where the trimmed name of a dict is empty exactly when its name is absent, not a
  string, empty or whitespace only; and every row that \<open>main\<close> hands to \<open>write_csv\<close>
  has a name that is not empty and not whitespace only.
\<close>

theorem blank_names_excluded:
  "(\<forall>out. safe_parse_items loaded = Inr out \<longrightarrow>
       (\<forall>it\<in>set out. item.name it \<noteq> [] \<and> \<not> list_all isspace (item.name it)))
   \<and> (\<forall>obj xs out. loaded = Inr (JObj obj) \<and> map_of obj ''items'' = Some (JArr xs)
         \<and> safe_parse_items loaded = Inr out \<longrightarrow>
       map item.name out
         = filter (\<lambda>n. n \<noteq> []) (map (\<lambda>d. field_text d ''name'') (dicts xs)))
   \<and> (field_text d ''name'' = [] \<longleftrightarrow>
        (case map_of d ''name'' of Some (JStr s) \<Rightarrow> list_all isspace s | _ \<Rightarrow> True))
   \<and> (\<forall>rs. main client a countries manual = Inr rs \<longrightarrow>
        (\<forall>r\<in>set rs. SeedRow.name r \<noteq> [] \<and> \<not> list_all isspace (SeedRow.name r)))"
proof (intro conjI allI impI)
  fix out assume "safe_parse_items loaded = Inr out"
  then show "\<forall>it\<in>set out. item.name it \<noteq> [] \<and> \<not> list_all isspace (item.name it)"
    by (rule safe_parse_items_names)
next
  fix obj xs out
  assume h: "loaded = Inr (JObj obj) \<and> map_of obj ''items'' = Some (JArr xs)
         \<and> safe_parse_items loaded = Inr out"
  then have "parse_loop xs [] = Inr out" by (auto simp: safe_parse_items_def)
  from parse_loop_spec [OF this]
  show "map item.name out
         = filter (\<lambda>n. n \<noteq> []) (map (\<lambda>d. field_text d ''name'') (dicts xs))" by simp
next
  show "field_text d ''name'' = [] \<longleftrightarrow>
        (case map_of d ''name'' of Some (JStr s) \<Rightarrow> list_all isspace s | _ \<Rightarrow> True)"
    by (rule field_text_empty_iff)
next
  fix rs assume m: "main client a countries manual = Inr rs"
  let ?st0 = "\<lparr>llm_calls = 0, naps = [], rows = [], seen_keys = {}\<rparr>"
  from m obtain st where l: "country_loop client a manual countries ?st0 = Inr st"
    and rs: "rs = rows st"
    by (cases "country_loop client a manual countries ?st0") (auto simp: main_def)
  have "\<forall>r\<in>set (rows ?st0). SeedRow.name r \<noteq> [] \<and> \<not> list_all isspace (SeedRow.name r)"
    by simp
  from country_loop_names [OF l this] rs
  show "\<forall>r\<in>set rs. SeedRow.name r \<noteq> [] \<and> \<not> list_all isspace (SeedRow.name r)" by simp
qed

theorem blank_names_excluded_witness:
  "safe_parse_items (Inr (JObj [(''items'', JArr
       [JObj [(''name'', JStr ''  ''), (''confidence'', JStr ''HIGH'')],
        JObj [(''name'', JStr ''KETRACO'')]])]))
     = Inr [\<lparr>item.name = ''KETRACO'', also_known_as = [], official_website = [],
              confidence = ''LOW'', evidence = [], comment = []\<rparr>]
   \<and> main (\<lambda>n q. if n = 0
                  then Inr (JObj [(''items'', JArr
                         [JObj [(''name'', JStr ''  ''), (''confidence'', JStr ''HIGH'')],
                          JObj [(''name'', JStr ''KETRACO'')]])])
                  else Inr (JObj [(''items'', JArr [])]))
        \<lparr>max_items = 5, sleep = 1 / 2, verify = False, dedupe_against_manual = False\<rparr>
        [''Kenya''] {}
     = Inr [\<lparr>country_label = ''Kenya'', category = ''TSO'', name = ''KETRACO'',
              also_known_as = [], official_website = [], confidence = ''LOW'',
              evidence = [], comment = [], source = ''chatgpt''\<rparr>]
   \<and> field_text [(''name'', JStr ''  ''), (''confidence'', JStr ''HIGH'')] ''name'' = []"
proof -
  let ?resp = "JObj [(''items'', JArr
       [JObj [(''name'', JStr ''  ''), (''confidence'', JStr ''HIGH'')],
        JObj [(''name'', JStr ''KETRACO'')]])]"
  let ?client = "\<lambda>(n::nat) (q::request).
     (if n = 0 then Inr ?resp else Inr (JObj [(''items'', JArr [])]) :: error + json)"
  let ?a = "\<lparr>max_items = 5, sleep = 1 / 2, verify = False, dedupe_against_manual = False\<rparr>"
  let ?k = "\<lparr>item.name = ''KETRACO'', also_known_as = [], official_website = [],
              confidence = ''LOW'', evidence = [], comment = []\<rparr>"
  let ?row = "\<lparr>country_label = ''Kenya'', category = ''TSO'', name = ''KETRACO'',
              also_known_as = [], official_website = [], confidence = ''LOW'',
              evidence = [], comment = [], source = ''chatgpt''\<rparr>"
  let ?d = "[(''name'', JStr ''  ''), (''confidence'', JStr ''HIGH'')]"
  have p: "safe_parse_items (Inr ?resp) = Inr [?k]" by code_simp
  have m: "main ?client ?a [''Kenya''] {} = Inr [?row]" by code_simp
  have b: "(case map_of ?d ''name'' of Some (JStr s) \<Rightarrow> list_all isspace s | _ \<Rightarrow> True)"
    by code_simp
  note t = blank_names_excluded [of "Inr ?resp" ?d ?client ?a "[''Kenya'']" "{}"]
  from t [THEN conjunct1, THEN spec, THEN mp, OF p]
  have 1: "\<forall>it\<in>set [?k]. item.name it \<noteq> [] \<and> \<not> list_all isspace (item.name it)" .
  from t [THEN conjunct2, THEN conjunct2, THEN conjunct1] b
  have 2: "field_text ?d ''name'' = []" by blast
  from t [THEN conjunct2, THEN conjunct2, THEN conjunct2, THEN spec, THEN mp, OF m]
  have 3: "\<forall>r\<in>set [?row]. SeedRow.name r \<noteq> [] \<and> \<not> list_all isspace (SeedRow.name r)" .
  from p m 1 2 3 show ?thesis by simp
qed

end
